theory Spec2Isabelle
  imports Complex_Main
begin

section \<open>Python values and strings\<close>

text \<open>
  The collector (\<^verbatim>\<open>lambda_collect/lambda_function.py\<close>) and the trend endpoint
  (\<^verbatim>\<open>lambda_deliver_data/app.py\<close>) are embedded as HOL functions. Python strings are
  \<^typ>\<open>string\<close>, so the characters are the code points below 256. Python's integers are
  \<^typ>\<open>int\<close>. Exceptions are values of \<open>error + 'a\<close>.
\<close>

datatype error =
    ValueError
  | KeyError string
  | AttributeError
  | IndexError
  | ZeroDivisionError
  | TypeError
  | OverflowError
  | OtherError string

record datetime =
  year :: int
  month :: int
  day :: int
  hour :: int
  minute :: int
  second :: int

datatype pyval =
    PNone
  | PStr string
  | PInt int
  | PFloat rat
  | PDate datetime

type_synonym pydict = "(string \<times> pyval) list"

text \<open>\<^verbatim>\<open>str.isspace\<close> on one character, which is also the class \<^verbatim>\<open>\s\<close> of \<^verbatim>\<open>re\<close>.\<close>

definition isspace :: "char \<Rightarrow> bool" where
  "isspace c =
     (let n = of_char c :: nat
      in (9 \<le> n \<and> n \<le> 13) \<or> (28 \<le> n \<and> n \<le> 32) \<or> n = 133 \<or> n = 160)"

definition isdigit :: "char \<Rightarrow> bool" where
  "isdigit c = (let n = of_char c :: nat in 48 \<le> n \<and> n \<le> 57)"

text \<open>\<^verbatim>\<open>s.strip()\<close>\<close>

definition strip :: "string \<Rightarrow> string" where
  "strip s = rev (dropWhile isspace (rev (dropWhile isspace s)))"

text \<open>\<^verbatim>\<open>s.startswith(p)\<close>\<close>

fun startswith :: "string \<Rightarrow> string \<Rightarrow> bool" where
  "startswith s [] = True"
| "startswith [] (p # ps) = False"
| "startswith (c # cs) (p # ps) = (c = p \<and> startswith cs ps)"

text \<open>\<^verbatim>\<open>sub in s\<close>\<close>

fun py_in :: "string \<Rightarrow> string \<Rightarrow> bool" where
  "py_in sub [] = (sub = [])"
| "py_in sub (c # cs) = (startswith (c # cs) sub \<or> py_in sub cs)"

text \<open>\<^verbatim>\<open>s.split(sep)\<close> for a separator of one character.\<close>

fun py_split :: "char \<Rightarrow> string \<Rightarrow> string list" where
  "py_split sep [] = [[]]"
| "py_split sep (c # cs) =
     (if c = sep then [] # py_split sep cs
      else (case py_split sep cs of
              [] \<Rightarrow> [[c]]
            | w # ws \<Rightarrow> (c # w) # ws))"

text \<open>
  \<^verbatim>\<open>int(s)\<close> on a string of decimal digits; anything else raises, and so does a string
  of more digits than the interpreter converts (4300 by default, leading zeros counted).
\<close>

definition max_str_digits :: nat where
  "max_str_digits = 4300"

definition digit_val :: "char \<Rightarrow> int" where
  "digit_val c = int (of_char c) - 48"

definition decimal :: "string \<Rightarrow> int" where
  "decimal s = foldl (\<lambda>n c. 10 * n + digit_val c) 0 s"

definition py_int :: "string \<Rightarrow> error + int" where
  "py_int s =
     (if s \<noteq> [] \<and> list_all isdigit s
      then (if max_str_digits < length s then Inl ValueError else Inr (decimal s))
      else Inl ValueError)"

section \<open>The regular expressions of the collector\<close>

text \<open>
  A pattern is a sequence of items, matched by backtracking in the order \<^verbatim>\<open>re\<close> tries
  them: a greedy repetition takes the longest run first, a lazy one the shortest, an
  alternation its branches from left to right. \<open>Open\<close> and \<open>Close\<close> delimit a capturing
  group.
\<close>

datatype cclass =
    Space
  | Dot
  | Digit
  | NotChr char
  | OneOf string

fun in_class :: "cclass \<Rightarrow> char \<Rightarrow> bool" where
  "in_class Space c = isspace c"
| "in_class Dot c = (c \<noteq> CHR 0x0A)"
| "in_class Digit c = isdigit c"
| "in_class (NotChr x) c = (c \<noteq> x)"
| "in_class (OneOf xs) c = (c \<in> set xs)"

datatype item =
    Lit string
  | One cclass
  | Star cclass
  | LazyStar cclass
  | Plus cclass
  | AltLit "string list"
  | Open
  | Close
  | Eos

type_synonym pattern = "item list"

text \<open>
  \<open>rmatch p s opens caps\<close> matches \<open>p\<close> at the start of \<open>s\<close>; \<open>opens\<close> holds the text
  that remained where each open group started, \<open>caps\<close> the groups closed so far. The
  result is the groups and the text after the match.
\<close>

fun iweight :: "item \<Rightarrow> nat" where
  "iweight (AltLit ls) = Suc (length ls)"
| "iweight i = 1"

function (sequential) rmatch :: "pattern \<Rightarrow> string \<Rightarrow> string list \<Rightarrow> string list \<Rightarrow> (string list \<times> string) option" where
  "rmatch [] s os caps = Some (caps, s)"
| "rmatch (Lit l # r) s os caps =
     (if startswith s l then rmatch r (drop (length l) s) os caps else None)"
| "rmatch (One c # r) s os caps =
     (case s of
        [] \<Rightarrow> None
      | x # xs \<Rightarrow> if in_class c x then rmatch r xs os caps else None)"
| "rmatch (Star c # r) s os caps =
     (case s of
        [] \<Rightarrow> rmatch r [] os caps
      | x # xs \<Rightarrow>
          if in_class c x
          then (case rmatch (Star c # r) xs os caps of
                  Some m \<Rightarrow> Some m
                | None \<Rightarrow> rmatch r s os caps)
          else rmatch r s os caps)"
| "rmatch (LazyStar c # r) s os caps =
     (case rmatch r s os caps of
        Some m \<Rightarrow> Some m
      | None \<Rightarrow>
          (case s of
             [] \<Rightarrow> None
           | x # xs \<Rightarrow> if in_class c x then rmatch (LazyStar c # r) xs os caps else None))"
| "rmatch (Plus c # r) s os caps =
     (case s of
        [] \<Rightarrow> None
      | x # xs \<Rightarrow> if in_class c x then rmatch (Star c # r) xs os caps else None)"
| "rmatch (AltLit [] # r) s os caps = None"
| "rmatch (AltLit (l # ls) # r) s os caps =
     (case (if startswith s l then rmatch r (drop (length l) s) os caps else None) of
        Some m \<Rightarrow> Some m
      | None \<Rightarrow> rmatch (AltLit ls # r) s os caps)"
| "rmatch (Open # r) s os caps = rmatch r s (s # os) caps"
| "rmatch (Close # r) s [] caps = None"
| "rmatch (Close # r) s (b # os) caps =
     rmatch r s os (caps @ [take (length b - length s) b])"
| "rmatch (Eos # r) s os caps =
     (if s = [] \<or> s = [CHR 0x0A] then rmatch r s os caps else None)"
  by pat_completeness auto
termination
  by (relation "measures [\<lambda>(p, s, os, caps). sum_list (map iweight p),
                          \<lambda>(p, s, os, caps). length s]") auto

text \<open>\<^verbatim>\<open>re.search(p, s)\<close>: the match at the leftmost position that has one; its groups.\<close>

fun re_search :: "pattern \<Rightarrow> string \<Rightarrow> string list option" where
  "re_search p [] = map_option fst (rmatch p [] [] [])"
| "re_search p (c # cs) =
     (case rmatch p (c # cs) [] [] of
        Some m \<Rightarrow> Some (fst m)
      | None \<Rightarrow> re_search p cs)"

text \<open>
  \<^verbatim>\<open>re.findall(p, s)\<close>: the groups of the successive matches, left to right, each search
  resuming where the previous match ended (one character further after an empty match).
\<close>

function re_findall :: "pattern \<Rightarrow> string \<Rightarrow> string list list" where
  "re_findall p s =
     (case rmatch p s [] [] of
        None \<Rightarrow> (case s of [] \<Rightarrow> [] | c # cs \<Rightarrow> re_findall p cs)
      | Some m \<Rightarrow>
          if length (snd m) < length s then fst m # re_findall p (snd m)
          else (case s of [] \<Rightarrow> [fst m] | c # cs \<Rightarrow> fst m # re_findall p cs))"
  by pat_completeness auto
termination
  by (relation "measure (\<lambda>(p, s). length s)") auto

text \<open>
  \<^verbatim>\<open>re.sub(p, repl, s)\<close> for a pattern that is an alternation \<^verbatim>\<open>p1|p2|...\<close> at the top
  level: at each position the branches are tried from left to right.
\<close>

fun rmatch_alt :: "pattern list \<Rightarrow> string \<Rightarrow> (string list \<times> string) option" where
  "rmatch_alt [] s = None"
| "rmatch_alt (p # ps) s =
     (case rmatch p s [] [] of
        Some m \<Rightarrow> Some m
      | None \<Rightarrow> rmatch_alt ps s)"

function re_sub :: "pattern list \<Rightarrow> string \<Rightarrow> string \<Rightarrow> string" where
  "re_sub alts repl s =
     (case rmatch_alt alts s of
        None \<Rightarrow> (case s of [] \<Rightarrow> [] | c # cs \<Rightarrow> c # re_sub alts repl cs)
      | Some m \<Rightarrow>
          if length (snd m) < length s then repl @ re_sub alts repl (snd m)
          else (case s of [] \<Rightarrow> repl | c # cs \<Rightarrow> repl @ c # re_sub alts repl cs))"
  by pat_completeness auto
termination
  by (relation "measure (\<lambda>(alts, repl, s). length s)") auto

text \<open>The patterns of \<^verbatim>\<open>fetch_rss_feed\<close>, in the order the source compiles them.\<close>

definition location_re :: pattern where
  \<comment> \<open>\<^verbatim>\<open><div><b>Location:</b>\s*(.*?)</div>\<close>\<close>
  "location_re = [Lit ''<div><b>Location:</b>'', Star Space, Open, LazyStar Dot, Close, Lit ''</div>'']"

definition date_re :: pattern where
  \<comment> \<open>\<^verbatim>\<open><b>Current Air Quality:</b>\s*(.*?)<br\<close>\<close>
  "date_re = [Lit ''<b>Current Air Quality:</b>'', Star Space, Open, LazyStar Dot, Close, Lit ''<br'']"

definition air_quality_re :: pattern where
  \<comment> \<open>\<^verbatim>\<open>(Good|Moderate|Unhealthy for Sensitive Groups|Unhealthy|Very Unhealthy|Hazardous)\s*-\s*(\d+)\s*AQI\s*-\s*([^<]+)\<close>\<close>
  "air_quality_re =
     [Open,
      AltLit [''Good'', ''Moderate'', ''Unhealthy for Sensitive Groups'', ''Unhealthy'',
              ''Very Unhealthy'', ''Hazardous''],
      Close,
      Star Space, Lit ''-'', Star Space,
      Open, Plus Digit, Close,
      Star Space, Lit ''AQI'', Star Space, Lit ''-'', Star Space,
      Open, Plus (NotChr (CHR ''<'')), Close]"

definition agency_re :: pattern where
  \<comment> \<open>\<^verbatim>\<open><div><b>Agency:</b>\s*(.*?)</div>\<close>\<close>
  "agency_re = [Lit ''<div><b>Agency:</b>'', Star Space, Open, LazyStar Dot, Close, Lit ''</div>'']"

definition last_update_re :: pattern where
  \<comment> \<open>\<^verbatim>\<open><div><i>Last Update: (.*?)</i></div>\<close>\<close>
  "last_update_re = [Lit ''<div><i>Last Update: '', Open, LazyStar Dot, Close, Lit ''</i></div>'']"

definition unavailable_re :: pattern where
  \<comment> \<open>\<^verbatim>\<open>Current Air Quality unavailable for\s*(.*?)<br\<close>\<close>
  "unavailable_re = [Lit ''Current Air Quality unavailable for'', Star Space, Open, LazyStar Dot, Close, Lit ''<br'']"

definition tz_re :: "pattern list" where
  \<comment> \<open>\<^verbatim>\<open> [Pp][Dd][Tt]| [Pp][Ss][Tt]$\<close>\<close>
  "tz_re =
     [[Lit '' '', One (OneOf ''Pp''), One (OneOf ''Dd''), One (OneOf ''Tt'')],
      [Lit '' '', One (OneOf ''Pp''), One (OneOf ''Ss''), One (OneOf ''Tt''), Eos]]"

section \<open>Extraction: \<^verbatim>\<open>fetch_rss_feed\<close>\<close>

text \<open>
  An entry of the parsed feed. A key the feed did not give is \<open>None\<close>;
  \<open>e_summary_detail\<close> is the nested dictionary, of which only \<^verbatim>\<open>value\<close> is read.
\<close>

record raw_entry =
  e_title :: "string option"
  e_link :: "string option"
  e_summary :: "string option"
  e_summary_detail :: "string option option"

text \<open>
  \<^verbatim>\<open>datetime.strptime(text, format)\<close> belongs to the standard library and is a
  parameter: \<open>None\<close> stands for the \<^verbatim>\<open>ValueError\<close> it raises on text that does not fit.
\<close>

type_synonym strptime = "string \<Rightarrow> string \<Rightarrow> datetime option"

text \<open>The dictionary literal \<^verbatim>\<open>entry_data\<close>.\<close>

definition entry_data ::
  "string \<Rightarrow> string \<Rightarrow> string \<Rightarrow> pyval \<Rightarrow> pyval \<Rightarrow> pyval \<Rightarrow> pyval \<Rightarrow> string \<Rightarrow> pyval \<Rightarrow> pydict" where
  "entry_data title link location report_date air_quality_pm25 air_quality_pm10
       air_quality_ozone agency last_update =
     [(''title'', PStr title),
      (''link'', PStr link),
      (''location'', PStr location),
      (''report_date'', report_date),
      (''air_quality_pm25'', air_quality_pm25),
      (''air_quality_pm10'', air_quality_pm10),
      (''air_quality_ozone'', air_quality_ozone),
      (''agency'', PStr agency),
      (''last_update'', last_update)]"

text \<open>
  The loop over \<^verbatim>\<open>air_quality_matches\<close> (lines 60 to 69); the accumulator holds
  \<^verbatim>\<open>air_quality_pm25\<close>, \<^verbatim>\<open>air_quality_pm10\<close> and \<^verbatim>\<open>air_quality_ozone\<close>. The test
  \<^verbatim>\<open>if air_quality_matches\<close> around it only skips the loop over an empty list.
\<close>

fun air_quality_loop ::
  "string list list \<Rightarrow> pyval \<times> pyval \<times> pyval \<Rightarrow> error + (pyval \<times> pyval \<times> pyval)" where
  "air_quality_loop [] acc = Inr acc"
| "air_quality_loop (m # ms) (pm25, pm10, ozone) =
     (case m of
        [description, aqi, pollutant] \<Rightarrow>
          (case py_int aqi of
             Inl e \<Rightarrow> Inl e
           | Inr n \<Rightarrow>
               if py_in ''2.5 microns'' pollutant then air_quality_loop ms (PInt n, pm10, ozone)
               else if py_in ''10 microns'' pollutant then air_quality_loop ms (pm25, PInt n, ozone)
               else if py_in ''Ozone'' pollutant then air_quality_loop ms (pm25, pm10, PInt n)
               else air_quality_loop ms (pm25, pm10, ozone))
      | _ \<Rightarrow> Inl ValueError)"

text \<open>\<^verbatim>\<open>m.group(1)\<close>\<close>

definition group1 :: "string list \<Rightarrow> error + string" where
  "group1 caps = (case caps of [] \<Rightarrow> Inl IndexError | g # _ \<Rightarrow> Inr g)"

text \<open>The two timestamp fields: strip, drop the zone marker, parse.\<close>

definition parse_stamp :: "strptime \<Rightarrow> string \<Rightarrow> string list option \<Rightarrow> error + pyval" where
  "parse_stamp strp fmt mtch =
     (case mtch of
        None \<Rightarrow> Inr PNone
      | Some caps \<Rightarrow>
          (case group1 caps of
             Inl e \<Rightarrow> Inl e
           | Inr g \<Rightarrow>
               (case strp (re_sub tz_re [] (strip g)) fmt of
                  None \<Rightarrow> Inl ValueError
                | Some d \<Rightarrow> Inr (PDate d))))"

text \<open>The two labelled text fields: the stripped group, or the default.\<close>

definition text_field :: "string \<Rightarrow> string list option \<Rightarrow> error + string" where
  "text_field dflt mtch =
     (case mtch of
        None \<Rightarrow> Inr dflt
      | Some caps \<Rightarrow> (case group1 caps of Inl e \<Rightarrow> Inl e | Inr g \<Rightarrow> Inr (strip g)))"

text \<open>
  The body of the loop over \<^verbatim>\<open>feed.entries\<close> (lines 22 to 82): one entry to one
  \<^verbatim>\<open>entry_data\<close>, or the exception that \<^verbatim>\<open>strptime\<close> or \<^verbatim>\<open>int\<close> raises.
\<close>

definition fetch_entry :: "strptime \<Rightarrow> raw_entry \<Rightarrow> error + pydict" where
  "fetch_entry strp entry =
     (let title = (case e_title entry of None \<Rightarrow> ''No title'' | Some v \<Rightarrow> v);
          link = (case e_link entry of None \<Rightarrow> ''No link'' | Some v \<Rightarrow> v)
      in case e_summary_detail entry of
           None \<Rightarrow>
             Inr (entry_data title link ''No location'' PNone PNone PNone PNone ''No agency'' PNone)
         | Some detail \<Rightarrow>
             (let summary_html = (case detail of None \<Rightarrow> [] | Some v \<Rightarrow> v);
                  location_match = re_search location_re summary_html;
                  date_match = re_search date_re summary_html;
                  air_quality_matches = re_findall air_quality_re summary_html;
                  agency_match = re_search agency_re summary_html;
                  last_update_match = re_search last_update_re summary_html;
                  unavailable_match = re_search unavailable_re summary_html
              in case unavailable_match of
                   Some caps \<Rightarrow>
                     (case group1 caps of
                        Inl e \<Rightarrow> Inl e
                      | Inr location \<Rightarrow>
                          Inr (entry_data title link location PNone PNone PNone PNone
                                 ''No agency'' PNone))
                 | None \<Rightarrow>
                     (case text_field ''No location'' location_match of
                        Inl e \<Rightarrow> Inl e
                      | Inr location \<Rightarrow>
                     (case parse_stamp strp ''%m/%d/%y %I:%M %p'' date_match of
                        Inl e \<Rightarrow> Inl e
                      | Inr report_date \<Rightarrow>
                     (case text_field ''No agency'' agency_match of
                        Inl e \<Rightarrow> Inl e
                      | Inr agency \<Rightarrow>
                     (case parse_stamp strp ''%a, %d %b %Y %H:%M:%S'' last_update_match of
                        Inl e \<Rightarrow> Inl e
                      | Inr last_update \<Rightarrow>
                     (case air_quality_loop air_quality_matches (PNone, PNone, PNone) of
                        Inl e \<Rightarrow> Inl e
                      | Inr (pm25, pm10, ozone) \<Rightarrow>
                          Inr (entry_data title link location report_date pm25 pm10 ozone
                                 agency last_update))))))))"

text \<open>
  The loop itself: \<^verbatim>\<open>data\<close> is returned only when every entry went through; an
  exception in one entry leaves the function at once.
\<close>

fun fetch_entries :: "strptime \<Rightarrow> raw_entry list \<Rightarrow> error + pydict list" where
  "fetch_entries strp [] = Inr []"
| "fetch_entries strp (entry # entries) =
     (case fetch_entry strp entry of
        Inl e \<Rightarrow> Inl e
      | Inr d \<Rightarrow>
          (case fetch_entries strp entries of
             Inl e \<Rightarrow> Inl e
           | Inr ds \<Rightarrow> Inr (d # ds)))"

section \<open>The store: \<^verbatim>\<open>save_to_db\<close>\<close>

text \<open>A row of the table \<^verbatim>\<open>air_quality\<close>, in the column order of the INSERT.\<close>

record row =
  r_title :: pyval
  r_link :: pyval
  r_location :: pyval
  r_report_date :: pyval
  r_pm25 :: pyval
  r_pm10 :: pyval
  r_ozone :: pyval
  r_agency :: pyval
  r_last_update :: pyval

datatype log_event =
    Processing_URL string
  | Failed_to_insert pydict error
  | Error_occurred error

text \<open>
  The connection: the rows committed to the table, the rows the open transaction has
  inserted, whether a statement of the open transaction has failed, and the log of the
  run. After a failed statement the server refuses every statement of the transaction
  until it is rolled back.
\<close>

record world =
  committed :: "row list"
  pending :: "row list"
  aborted :: bool
  logged :: "log_event list"

text \<open>
  The table is declared outside the sources, so what the INSERT needs of it is a
  parameter: whether its unique index on \<^verbatim>\<open>(location, report_date)\<close> lets two NULLs differ
  (the default of PostgreSQL), and which rows the server refuses with an error.
  The rest of the record is what the handler reads from outside: the URL list, the
  connection attempt, the feed parser and \<^verbatim>\<open>strptime\<close>.
\<close>

record env =
  nulls_distinct :: bool
  rejects :: "row \<Rightarrow> bool"
  read_urls_from_csv :: "error + string list"
  get_db_connection :: "error option"
  feedparser_parse :: "string \<Rightarrow> error + raw_entry list"
  strptime_impl :: strptime

text \<open>\<^verbatim>\<open>entry[key]\<close>\<close>

definition getitem :: "pydict \<Rightarrow> string \<Rightarrow> error + pyval" where
  "getitem d k = (case map_of d k of None \<Rightarrow> Inl (KeyError k) | Some v \<Rightarrow> Inr v)"

text \<open>\<^verbatim>\<open>entry['location'].split(',')[0].strip()\<close>\<close>

definition location_key :: "pyval \<Rightarrow> error + pyval" where
  "location_key v =
     (case v of
        PStr s \<Rightarrow>
          (case py_split (CHR '','') s of
             [] \<Rightarrow> Inl IndexError
           | w # _ \<Rightarrow> Inr (PStr (strip w)))
      | _ \<Rightarrow> Inl AttributeError)"

text \<open>The parameter tuple of the INSERT, its elements evaluated from left to right.\<close>

definition insert_params :: "pydict \<Rightarrow> error + row" where
  "insert_params entry =
     (case getitem entry ''title'' of Inl e \<Rightarrow> Inl e | Inr title \<Rightarrow>
     (case getitem entry ''link'' of Inl e \<Rightarrow> Inl e | Inr link \<Rightarrow>
     (case getitem entry ''location'' of Inl e \<Rightarrow> Inl e | Inr loc \<Rightarrow>
     (case location_key loc of Inl e \<Rightarrow> Inl e | Inr location \<Rightarrow>
     (case getitem entry ''report_date'' of Inl e \<Rightarrow> Inl e | Inr report_date \<Rightarrow>
     (case getitem entry ''air_quality_pm25'' of Inl e \<Rightarrow> Inl e | Inr pm25 \<Rightarrow>
     (case getitem entry ''air_quality_pm10'' of Inl e \<Rightarrow> Inl e | Inr pm10 \<Rightarrow>
     (case getitem entry ''air_quality_ozone'' of Inl e \<Rightarrow> Inl e | Inr ozone \<Rightarrow>
     (case getitem entry ''agency'' of Inl e \<Rightarrow> Inl e | Inr agency \<Rightarrow>
     (case getitem entry ''last_update'' of Inl e \<Rightarrow> Inl e | Inr last_update \<Rightarrow>
        Inr \<lparr>r_title = title, r_link = link, r_location = location,
             r_report_date = report_date, r_pm25 = pm25, r_pm10 = pm10, r_ozone = ozone,
             r_agency = agency, r_last_update = last_update\<rparr>))))))))))"

text \<open>
  Equality of two column values inside the unique index: a NULL equals nothing, not even
  another NULL, unless the index was declared with NULLs not distinct.
\<close>

definition index_eq :: "bool \<Rightarrow> pyval \<Rightarrow> pyval \<Rightarrow> bool" where
  "index_eq nd a b =
     (if a = PNone \<or> b = PNone then \<not> nd \<and> a = PNone \<and> b = PNone else a = b)"

definition conflict :: "bool \<Rightarrow> row \<Rightarrow> row \<Rightarrow> bool" where
  "conflict nd r r' =
     (index_eq nd (r_location r) (r_location r') \<and>
      index_eq nd (r_report_date r) (r_report_date r'))"

text \<open>
  \<^verbatim>\<open>INSERT ... ON CONFLICT (location, report_date) DO NOTHING\<close>, with the exception it
  raises, if any, and the connection after it: refused at once inside a failed
  transaction; an error of the server, which fails the transaction; nothing at all when
  a visible row has the key; the new row otherwise.
\<close>

definition execute_insert :: "env \<Rightarrow> row \<Rightarrow> world \<Rightarrow> error option \<times> world" where
  "execute_insert cfg r w =
     (if aborted w then (Some (OtherError ''psycopg2.errors.InFailedSqlTransaction''), w)
      else if rejects cfg r then (Some (OtherError ''psycopg2.Error''), w\<lparr>aborted := True\<rparr>)
      else if list_ex (conflict (nulls_distinct cfg) r) (committed w @ pending w) then (None, w)
      else (None, w\<lparr>pending := pending w @ [r]\<rparr>))"

text \<open>
  \<^verbatim>\<open>conn.rollback()\<close> ends the transaction and drops what it inserted;
  \<^verbatim>\<open>conn.commit()\<close> ends it and keeps what it inserted, unless the transaction has
  failed, which the server then rolls back.
\<close>

definition rollback :: "world \<Rightarrow> world" where
  "rollback w = w\<lparr>pending := [], aborted := False\<rparr>"

definition commit :: "world \<Rightarrow> world" where
  "commit w =
     (if aborted w then rollback w
      else w\<lparr>committed := committed w @ pending w, pending := []\<rparr>)"

definition logger :: "log_event \<Rightarrow> world \<Rightarrow> world" where
  "logger ev w = w\<lparr>logged := logged w @ [ev]\<rparr>"

text \<open>
  The body of the loop of \<^verbatim>\<open>save_to_db\<close> (lines 118 to 147): the \<^verbatim>\<open>try\<close> and its
  \<^verbatim>\<open>except\<close>. The connection is taken to stay usable, so that \<^verbatim>\<open>rollback\<close> itself does
  not raise; an error at \<^verbatim>\<open>commit\<close> counts as the server refusing the row.
\<close>

definition save_entry :: "env \<Rightarrow> pydict \<Rightarrow> world \<Rightarrow> world" where
  "save_entry cfg entry w =
     (case insert_params entry of
        Inl e \<Rightarrow> rollback (logger (Failed_to_insert entry e) w)
      | Inr r \<Rightarrow>
          (case execute_insert cfg r w of
             (None, w') \<Rightarrow> commit w'
           | (Some e, w') \<Rightarrow> rollback (logger (Failed_to_insert entry e) w')))"

fun save_to_db :: "env \<Rightarrow> pydict list \<Rightarrow> world \<Rightarrow> world" where
  "save_to_db cfg [] w = w"
| "save_to_db cfg (entry # data) w = save_to_db cfg data (save_entry cfg entry w)"

section \<open>The orchestrator: \<^verbatim>\<open>lambda_handler\<close>\<close>

definition fetch_rss_feed :: "env \<Rightarrow> string \<Rightarrow> error + pydict list" where
  "fetch_rss_feed cfg url =
     (case feedparser_parse cfg url of
        Inl e \<Rightarrow> Inl e
      | Inr entries \<Rightarrow> fetch_entries (strptime_impl cfg) entries)"

text \<open>
  The loop over the URLs. It has no handler of its own: the first exception leaves it,
  with the world as the URLs before have left it.
\<close>

fun process_urls :: "env \<Rightarrow> string list \<Rightarrow> world \<Rightarrow> error option \<times> world" where
  "process_urls cfg [] w = (None, w)"
| "process_urls cfg (url # urls) w =
     (let w1 = logger (Processing_URL url) w
      in case fetch_rss_feed cfg url of
           Inl e \<Rightarrow> (Some e, w1)
         | Inr data \<Rightarrow> process_urls cfg urls (save_to_db cfg data w1))"

datatype body =
    Completed_successfully
  | Error_in_data_collection error

record response =
  statusCode :: int
  body :: body

definition failed :: "error \<Rightarrow> world \<Rightarrow> response \<times> world" where
  "failed e w =
     (\<lparr>statusCode = 500, body = Error_in_data_collection e\<rparr>, logger (Error_occurred e) w)"

definition lambda_handler :: "env \<Rightarrow> world \<Rightarrow> response \<times> world" where
  "lambda_handler cfg w =
     (case read_urls_from_csv cfg of
        Inl e \<Rightarrow> failed e w
      | Inr urls \<Rightarrow>
          (case get_db_connection cfg of
             Some e \<Rightarrow> failed e w
           | None \<Rightarrow>
               (case process_urls cfg urls w of
                  (Some e, w') \<Rightarrow> failed e w'
                | (None, w') \<Rightarrow>
                    (\<lparr>statusCode = 200, body = Completed_successfully\<rparr>, rollback w'))))"

section \<open>The trend endpoint: \<^verbatim>\<open>lambda_get_air_quality_trend\<close>\<close>

text \<open>
  A Python float is a binary64 number; \<open>PFloat\<close> holds its value, a rational.
  \<open>float_of x\<close> is the binary64 number nearest to \<open>x\<close>, ties to the even significand:
  53 significant bits down to the exponent \<open>-1022\<close>, multiples of \<open>2 ^ -1074\<close> below.
  What rounds to \<open>2 ^ 1024\<close> or beyond is infinite, and \<open>2 ^ 1024\<close> stands for the
  infinity. Not-a-number and the arithmetic on infinite operands are not modelled: the
  pollutant columns hold the integers the collector writes, or floats of the same range.
\<close>

function ilog2 :: "int \<Rightarrow> int" where
  "ilog2 n = (if n < 2 then 0 else 1 + ilog2 (n div 2))"
  by pat_completeness auto
termination
  by (relation "measure nat") auto

declare ilog2.simps [simp del]

definition pow2 :: "int \<Rightarrow> rat" where
  "pow2 e = (if 0 \<le> e then 2 ^ nat e else 1 / 2 ^ nat (- e))"

text \<open>The exponent \<open>e\<close> with \<open>2 ^ e \<le> x < 2 ^ (e + 1)\<close>, for a positive \<open>x\<close>.\<close>

definition floor_log2 :: "rat \<Rightarrow> int" where
  "floor_log2 x =
     (let c = ilog2 (fst (quotient_of x)) - ilog2 (snd (quotient_of x))
      in if x < pow2 c then c - 1 else c)"

definition round_half_even :: "rat \<Rightarrow> int" where
  "round_half_even y =
     (let f = \<lfloor>y\<rfloor>; d = y - of_int f
      in if d < 1 / 2 then f
         else if 1 / 2 < d then f + 1
         else if even f then f
         else f + 1)"

definition float_of :: "rat \<Rightarrow> rat" where
  "float_of x =
     (if x = 0 then 0
      else (let e = max (floor_log2 \<bar>x\<bar>) (- 1022);
                u = pow2 (e - 52);
                r = of_int (round_half_even (\<bar>x\<bar> / u)) * u
            in sgn x * min r (pow2 1024)))"

definition isinf :: "rat \<Rightarrow> bool" where
  "isinf x = (pow2 1024 \<le> \<bar>x\<bar>)"

definition truthy :: "pyval \<Rightarrow> bool" where
  "truthy v =
     (case v of
        PNone \<Rightarrow> False
      | PStr s \<Rightarrow> s \<noteq> []
      | PInt n \<Rightarrow> n \<noteq> 0
      | PFloat x \<Rightarrow> x \<noteq> 0
      | PDate d \<Rightarrow> True)"

definition is_number :: "pyval \<Rightarrow> bool" where
  "is_number v = (case v of PInt n \<Rightarrow> True | PFloat x \<Rightarrow> True | _ \<Rightarrow> False)"

text \<open>The operand of a float operation: an integer is converted, which may overflow.\<close>

definition to_float :: "pyval \<Rightarrow> error + rat" where
  "to_float v =
     (case v of
        PInt n \<Rightarrow> if isinf (float_of (of_int n)) then Inl OverflowError
                  else Inr (float_of (of_int n))
      | PFloat x \<Rightarrow> Inr x
      | _ \<Rightarrow> Inl TypeError)"

text \<open>The division of two numbers, which raises on a divisor of zero.\<close>

definition truediv :: "rat \<Rightarrow> rat \<Rightarrow> error + rat" where
  "truediv a b = (if b = 0 then Inl ZeroDivisionError else Inr (a / b))"

text \<open>
  \<^verbatim>\<open>a - b\<close>, \<^verbatim>\<open>a / b\<close> and \<^verbatim>\<open>a * b\<close>. Two integers subtract and multiply exactly, and
  their quotient is the exact quotient rounded once; it raises when that is infinite.
  With a float among the operands both become floats and the result is rounded.
\<close>

definition py_sub :: "pyval \<Rightarrow> pyval \<Rightarrow> error + pyval" where
  "py_sub a b =
     (if \<not> (is_number a \<and> is_number b) then Inl TypeError
      else (case (a, b) of
              (PInt m, PInt n) \<Rightarrow> Inr (PInt (m - n))
            | _ \<Rightarrow>
                (case to_float a of Inl e \<Rightarrow> Inl e | Inr x \<Rightarrow>
                (case to_float b of Inl e \<Rightarrow> Inl e | Inr y \<Rightarrow>
                   Inr (PFloat (float_of (x - y)))))))"

definition py_truediv :: "pyval \<Rightarrow> pyval \<Rightarrow> error + pyval" where
  "py_truediv a b =
     (if \<not> (is_number a \<and> is_number b) then Inl TypeError
      else (case (a, b) of
              (PInt m, PInt n) \<Rightarrow>
                (case truediv (of_int m) (of_int n) of Inl e \<Rightarrow> Inl e | Inr q \<Rightarrow>
                   if isinf (float_of q) then Inl OverflowError
                   else Inr (PFloat (float_of q)))
            | _ \<Rightarrow>
                (case to_float a of Inl e \<Rightarrow> Inl e | Inr x \<Rightarrow>
                (case to_float b of Inl e \<Rightarrow> Inl e | Inr y \<Rightarrow>
                (case truediv x y of Inl e \<Rightarrow> Inl e | Inr q \<Rightarrow>
                   Inr (PFloat (float_of q)))))))"

definition py_mul :: "pyval \<Rightarrow> pyval \<Rightarrow> error + pyval" where
  "py_mul a b =
     (if \<not> (is_number a \<and> is_number b) then Inl TypeError
      else (case (a, b) of
              (PInt m, PInt n) \<Rightarrow> Inr (PInt (m * n))
            | _ \<Rightarrow>
                (case to_float a of Inl e \<Rightarrow> Inl e | Inr x \<Rightarrow>
                (case to_float b of Inl e \<Rightarrow> Inl e | Inr y \<Rightarrow>
                   Inr (PFloat (float_of (x * y)))))))"

text \<open>
  \<^verbatim>\<open>round(x, 2)\<close>: the value of the float rounded to the nearest hundredth, ties to even,
  and that decimal read back as a float. An integer is returned as it is.
\<close>

definition py_round2 :: "pyval \<Rightarrow> error + pyval" where
  "py_round2 v =
     (case v of
        PFloat x \<Rightarrow> Inr (PFloat (float_of (of_int (round_half_even (x * 100)) / 100)))
      | PInt n \<Rightarrow> Inr (PInt n)
      | _ \<Rightarrow> Inl TypeError)"

text \<open>\<^verbatim>\<open>calculate_change\<close>: \<^verbatim>\<open>round(((end - start) / start) * 100, 2)\<close> under its guard.\<close>

definition calculate_change :: "pyval \<Rightarrow> pyval \<Rightarrow> error + pyval" where
  "calculate_change start_v end_v =
     (if truthy start_v \<and> truthy end_v
      then (case py_sub end_v start_v of Inl e \<Rightarrow> Inl e | Inr d \<Rightarrow>
           (case py_truediv d start_v of Inl e \<Rightarrow> Inl e | Inr q \<Rightarrow>
           (case py_mul q (PInt 100) of Inl e \<Rightarrow> Inl e | Inr p \<Rightarrow>
              py_round2 p)))
      else Inr PNone)"

text \<open>The row that the query returns.\<close>

record trend_row =
  start_pm25 :: pyval
  end_pm25 :: pyval
  start_pm10 :: pyval
  end_pm10 :: pyval
  start_ozone :: pyval
  end_ozone :: pyval

definition isinstance_float :: "pyval \<Rightarrow> bool" where
  "isinstance_float v = (case v of PFloat x \<Rightarrow> True | _ \<Rightarrow> False)"

definition negative :: "pyval \<Rightarrow> bool" where
  "negative v = (case v of PFloat x \<Rightarrow> x < 0 | PInt n \<Rightarrow> n < 0 | _ \<Rightarrow> False)"

definition positive :: "pyval \<Rightarrow> bool" where
  "positive v = (case v of PFloat x \<Rightarrow> 0 < x | PInt n \<Rightarrow> 0 < n | _ \<Rightarrow> False)"

text \<open>
  The conditional expression over \<^verbatim>\<open>trend_data.values()\<close>; the filter on
  \<^verbatim>\<open>isinstance(change, float)\<close> leaves the computed changes only.
\<close>

definition trend_direction :: "pydict \<Rightarrow> string" where
  "trend_direction trend_data =
     (let changes = filter isinstance_float (map snd trend_data)
      in if list_all (\<lambda>change. change \<noteq> PNone \<and> negative change) changes then ''improving''
         else if list_all (\<lambda>change. change \<noteq> PNone \<and> positive change) changes then ''worsening''
         else ''mixed'')"

definition trend_data_of :: "string \<Rightarrow> string \<Rightarrow> trend_row \<Rightarrow> error + pydict" where
  "trend_data_of location timeframe result =
     (case calculate_change (start_pm25 result) (end_pm25 result) of Inl e \<Rightarrow> Inl e | Inr c25 \<Rightarrow>
     (case calculate_change (start_pm10 result) (end_pm10 result) of Inl e \<Rightarrow> Inl e | Inr c10 \<Rightarrow>
     (case calculate_change (start_ozone result) (end_ozone result) of Inl e \<Rightarrow> Inl e | Inr co \<Rightarrow>
        (let trend_data =
               [(''location'', PStr location),
                (''timeframe'', PStr timeframe),
                (''pm25_change'', c25),
                (''pm10_change'', c10),
                (''ozone_change'', co)]
         in Inr (trend_data @ [(''trend_direction'', PStr (trend_direction trend_data))])))))"

section \<open>Last match wins, as the specification words it\<close>

text \<open>
  A description is classified by the substring it contains; the reading of a pollutant
  is the value of the last match, in text order, classified to it.
\<close>

datatype pollutant = PM25 | PM10 | Ozone




text \<open>The integers of the matches are all short enough for \<^verbatim>\<open>int\<close> to convert.\<close>

definition digits_converted :: "string list list \<Rightarrow> bool" where
  "digits_converted ms =
     list_all (\<lambda>m. case m of
                      [category, aqi, description] \<Rightarrow> length aqi \<le> max_str_digits
                    | _ \<Rightarrow> True) ms"

section \<open>The key of a row and the failure of an INSERT\<close>


definition same_key :: "row \<Rightarrow> row \<Rightarrow> bool" where
  "same_key r r' = (r_location r = r_location r' \<and> r_report_date r = r_report_date r')"


section \<open>The changes that are present\<close>

text \<open>The changes that were computed, among the values of \<^verbatim>\<open>trend_data\<close>.\<close>

definition present :: "pyval list \<Rightarrow> rat list" where
  "present vs = List.map_filter (\<lambda>v. case v of PFloat x \<Rightarrow> Some x | _ \<Rightarrow> None) vs"

section \<open>Values for the examples\<close>

text \<open>
  What \<^verbatim>\<open>strptime\<close> does on the texts of the examples: it reads one report date and
  raises on the other texts.
\<close>

definition strptime_example :: strptime where
  "strptime_example text fmt =
     (if text = ''07/04/24 10:00 AM'' \<and> fmt = ''%m/%d/%y %I:%M %p''
      then Some \<lparr>year = 2024, month = 7, day = 4, hour = 10, minute = 0, second = 0\<rparr>
      else None)"

text \<open>
  Three feeds: Tacoma's entry carries a report date that is no date, Seattle's is well
  formed, Olympia's has one entry of each kind, the well formed one first. The server of the examples refuses a
  title of more than forty characters.
\<close>

definition feed_example :: "string \<Rightarrow> error + raw_entry list" where
  "feed_example url =
     (if url = ''https://feeds.example/tacoma'' then
        Inr [\<lparr>e_title = Some ''Tacoma'', e_link = None, e_summary = None,
               e_summary_detail = Some (Some
                 ''<div><b>Location:</b> Tacoma, WA</div><b>Current Air Quality:</b> soon<br />Good - 12 AQI - Ozone<br />'')\<rparr>]
      else if url = ''https://feeds.example/seattle'' then
        Inr [\<lparr>e_title = Some ''Seattle'', e_link = None, e_summary = None,
               e_summary_detail = Some (Some
                 ''<div><b>Location:</b> Seattle, WA</div><b>Current Air Quality:</b> 07/04/24 10:00 AM PDT<br />Good - 30 AQI - Ozone<br />'')\<rparr>]
      else if url = ''https://feeds.example/olympia'' then
        Inr [\<lparr>e_title = Some ''Lacey'', e_link = None, e_summary = None,
               e_summary_detail = Some (Some
                 ''<div><b>Location:</b> Lacey, WA</div><b>Current Air Quality:</b> 07/04/24 10:00 AM PDT<br />Good - 30 AQI - Ozone<br />'')\<rparr>,
             \<lparr>e_title = Some ''Olympia'', e_link = None, e_summary = None,
               e_summary_detail = Some (Some
                 ''<div><b>Location:</b> Olympia, WA</div><b>Current Air Quality:</b> soon<br />Good - 12 AQI - Ozone<br />'')\<rparr>]
      else Inr [])"

definition rejects_example :: "row \<Rightarrow> bool" where
  "rejects_example r = (case r_title r of PStr s \<Rightarrow> 40 < length s | _ \<Rightarrow> False)"

definition env_example :: env where
  "env_example =
     \<lparr>nulls_distinct = True,
      rejects = rejects_example,
      read_urls_from_csv = Inr [''https://feeds.example/tacoma'', ''https://feeds.example/seattle''],
      get_db_connection = None,
      feedparser_parse = feed_example,
      strptime_impl = strptime_example\<rparr>"

definition world_empty :: world where
  "world_empty = \<lparr>committed = [], pending = [], aborted = False, logged = []\<rparr>"

section \<open>Properties\<close>

subsection \<open>The matcher\<close>

lemma rmatch_caps:
  "rmatch p s os caps = Some (caps', rest) \<Longrightarrow>
     \<exists>ext. caps' = caps @ ext \<and> length ext = count_list p Close"
proof (induction p s os caps arbitrary: caps' rest rule: rmatch.induct)
  case (1 s os caps)
  from "1.prems" show ?case by simp
next
  case (2 l r s os caps)
  from "2.prems" have a: "startswith s l"
    and b: "rmatch r (drop (length l) s) os caps = Some (caps', rest)"
    by (simp_all split: if_splits)
  from "2.IH" [OF a b] show ?case by simp
next
  case (3 c r s os caps)
  from "3.prems" obtain x xs where a: "s = x # xs" "in_class c x"
    and b: "rmatch r xs os caps = Some (caps', rest)"
    by (cases s) (simp_all split: if_splits)
  from "3.IH" [OF a b] show ?case by simp
next
  case (4 c r s os caps)
  show ?case
  proof (cases s)
    case Nil
    with "4.prems" have "rmatch r [] os caps = Some (caps', rest)" by simp
    from "4.IH"(1) [OF Nil this] show ?thesis by simp
  next
    case (Cons x xs)
    show ?thesis
    proof (cases "in_class c x")
      case True
      show ?thesis
      proof (cases "rmatch (Star c # r) xs os caps")
        case None
        with "4.prems" Cons True have "rmatch r s os caps = Some (caps', rest)" by simp
        from "4.IH"(3) [OF Cons True None this] show ?thesis by simp
      next
        case (Some m)
        with "4.prems" Cons True have "rmatch (Star c # r) xs os caps = Some (caps', rest)"
          by simp
        from "4.IH"(2) [OF Cons True this] show ?thesis by simp
      qed
    next
      case False
      with "4.prems" Cons have "rmatch r s os caps = Some (caps', rest)" by simp
      from "4.IH"(4) [OF Cons False this] show ?thesis by simp
    qed
  qed
next
  case (5 c r s os caps)
  show ?case
  proof (cases "rmatch r s os caps")
    case (Some m)
    with "5.prems" have "rmatch r s os caps = Some (caps', rest)" by simp
    from "5.IH"(1) [OF this] show ?thesis by simp
  next
    case None
    with "5.prems" obtain x xs where a: "s = x # xs" "in_class c x"
      and b: "rmatch (LazyStar c # r) xs os caps = Some (caps', rest)"
      by (cases s) (simp_all split: if_splits)
    from "5.IH"(2) [OF None a b] show ?thesis by simp
  qed
next
  case (6 c r s os caps)
  from "6.prems" obtain x xs where a: "s = x # xs" "in_class c x"
    and b: "rmatch (Star c # r) xs os caps = Some (caps', rest)"
    by (cases s) (simp_all split: if_splits)
  from "6.IH" [OF a b] show ?case by simp
next
  case (7 r s os caps)
  from "7.prems" show ?case by simp
next
  case (8 l ls r s os caps)
  let ?first = "if startswith s l then rmatch r (drop (length l) s) os caps else None"
  show ?case
  proof (cases ?first)
    case (Some m)
    with "8.prems" have a: "startswith s l"
      and b: "rmatch r (drop (length l) s) os caps = Some (caps', rest)"
      by (simp_all split: if_splits)
    from "8.IH"(1) [OF a b] show ?thesis by simp
  next
    case None
    with "8.prems" have "rmatch (AltLit ls # r) s os caps = Some (caps', rest)" by simp
    from "8.IH"(2) [OF None this] show ?thesis by simp
  qed
next
  case (9 r s os caps)
  from "9.prems" have "rmatch r s (s # os) caps = Some (caps', rest)" by simp
  from "9.IH" [OF this] show ?case by simp
next
  case (10 r s caps)
  from "10.prems" show ?case by simp
next
  case (11 r s b os caps)
  from "11.prems" have "rmatch r s os (caps @ [take (length b - length s) b]) = Some (caps', rest)"
    by simp
  from "11.IH" [OF this] show ?case by auto
next
  case (12 r s os caps)
  from "12.prems" have a: "s = [] \<or> s = [CHR 0x0A]"
    and b: "rmatch r s os caps = Some (caps', rest)"
    by (simp_all split: if_splits)
  from "12.IH" [OF a b] show ?case by simp
qed

lemma rmatch_Star_elim:
  "rmatch (Star c # r) s os caps = Some m \<Longrightarrow>
     \<exists>n. n \<le> length s \<and> list_all (in_class c) (take n s) \<and> rmatch r (drop n s) os caps = Some m"
proof (induction s)
  case Nil
  then show ?case by simp
next
  case (Cons x xs)
  show ?case
  proof (cases "in_class c x \<and> rmatch (Star c # r) xs os caps \<noteq> None")
    case True
    with Cons.prems have "rmatch (Star c # r) xs os caps = Some m" by auto
    from Cons.IH [OF this] obtain n where
      n: "n \<le> length xs" "list_all (in_class c) (take n xs)" "rmatch r (drop n xs) os caps = Some m"
      by blast
    with True show ?thesis by (intro exI [of _ "Suc n"]) simp
  next
    case False
    with Cons.prems have "rmatch r (x # xs) os caps = Some m"
      by (auto split: if_splits option.splits)
    then show ?thesis by (intro exI [of _ 0]) simp
  qed
qed

lemma rmatch_group_Plus_elim:
  assumes "rmatch (Open # Plus c # Close # r) s os caps = Some m"
  shows "\<exists>g rest. g \<noteq> [] \<and> list_all (in_class c) g \<and> rmatch r rest os (caps @ [g]) = Some m"
proof (cases s)
  case Nil
  with assms show ?thesis by simp
next
  case (Cons x xs)
  with assms have x: "in_class c x" and "rmatch (Star c # Close # r) xs (s # os) caps = Some m"
    by (auto split: if_splits)
  from rmatch_Star_elim [OF this(2)] obtain n where
    n: "n \<le> length xs" "list_all (in_class c) (take n xs)"
       "rmatch (Close # r) (drop n xs) (s # os) caps = Some m"
    by blast
  have "take (length s - length (drop n xs)) s = x # take n xs"
    using n(1) Cons by simp
  with n(3) have "rmatch r (drop n xs) os (caps @ [x # take n xs]) = Some m" by simp
  with x n(2) show ?thesis by (intro exI [of _ "x # take n xs"] exI [of _ "drop n xs"]) simp
qed

lemma rmatch_group_AltLit_elim:
  "rmatch (AltLit ls # Close # r) s (b # os) caps = Some m \<Longrightarrow>
     \<exists>g rest. rmatch r rest os (caps @ [g]) = Some m"
proof (induction ls)
  case Nil
  then show ?case by simp
next
  case (Cons l ls)
  then show ?case by (auto split: if_splits option.splits)
qed

lemma rmatch_Open_elim:
  "rmatch (Open # r) s os caps = Some m \<Longrightarrow> rmatch r s (s # os) caps = Some m"
  by simp

lemma rmatch_Lit_elim:
  "rmatch (Lit l # r) s os caps = Some m \<Longrightarrow> rmatch r (drop (length l) s) os caps = Some m"
  by (simp split: if_splits)

lemma air_quality_groups:
  assumes "rmatch air_quality_re s [] [] = Some (caps, rest)"
  shows "\<exists>description aqi pollutant.
           caps = [description, aqi, pollutant] \<and> aqi \<noteq> [] \<and> list_all isdigit aqi"
proof -
  let ?r3 = "[Star Space, Lit ''AQI'', Star Space, Lit ''-'', Star Space,
      Open, Plus (NotChr (CHR ''<'')), Close]"
  let ?r2 = "Open # Plus Digit # Close # ?r3"
  note a0 = rmatch_Open_elim [OF assms [unfolded air_quality_re_def]]
  from rmatch_group_AltLit_elim [OF a0] obtain g s1 where
    "rmatch (Star Space # Lit ''-'' # Star Space # ?r2) s1 [] ([] @ [g]) = Some (caps, rest)"
    by blast
  from rmatch_Star_elim [OF this] obtain n1 where
    "rmatch (Lit ''-'' # Star Space # ?r2) (drop n1 s1) [] ([] @ [g]) = Some (caps, rest)"
    by blast
  from rmatch_Star_elim [OF rmatch_Lit_elim [OF this]] obtain n2 where
    "rmatch ?r2 (drop n2 (drop (length ''-'') (drop n1 s1))) [] ([] @ [g]) = Some (caps, rest)"
    by blast
  from rmatch_group_Plus_elim [OF this] obtain a s5 where
    a: "a \<noteq> []" "list_all (in_class Digit) a"
       "rmatch ?r3 s5 [] (([] @ [g]) @ [a]) = Some (caps, rest)"
    by blast
  from rmatch_caps [OF a(3)] obtain ext where
    "caps = (([] @ [g]) @ [a]) @ ext" "length ext = count_list ?r3 Close"
    by blast
  then have "caps = [g, a] @ ext" "length ext = 1" by simp_all
  then obtain p where "caps = [g, a, p]" by (cases ext) auto
  with a(1,2) show ?thesis by (simp add: list_all_iff)
qed

lemma re_search_caps:
  "re_search p s = Some caps \<Longrightarrow> length caps = count_list p Close"
proof (induction s)
  case Nil
  then obtain rest where "rmatch p [] [] [] = Some (caps, rest)" by auto
  from rmatch_caps [OF this] show ?case by auto
next
  case (Cons c cs)
  show ?case
  proof (cases "rmatch p (c # cs) [] []")
    case None
    with Cons show ?thesis by simp
  next
    case (Some m)
    with Cons.prems have "rmatch p (c # cs) [] [] = Some (caps, snd m)" by auto
    from rmatch_caps [OF this] show ?thesis by auto
  qed
qed

lemma one_group:
  assumes "re_search p s = Some caps" and "count_list p Close = 1"
  shows "\<exists>g. caps = [g]"
proof -
  from re_search_caps [OF assms(1)] assms(2) have "length caps = 1" by simp
  then show ?thesis by (cases caps) auto
qed

lemma count_unavailable_re: "count_list unavailable_re Close = 1"
  by (simp add: unavailable_re_def)

lemma startswith_append: "startswith (l @ s) l"
  by (induction l) simp_all

lemma rmatch_Lit_append:
  "rmatch (Lit l # r) (l @ s) os caps = rmatch r s os caps"
  by (simp add: startswith_append)

lemma rmatch_Star_run:
  assumes "list_all (in_class c) ws"
    and "s = [] \<or> \<not> in_class c (hd s)"
    and "rmatch r s os caps = Some m"
  shows "rmatch (Star c # r) (ws @ s) os caps = Some m"
  using assms(1)
proof (induction ws)
  case Nil
  from assms(2,3) show ?case by (cases s) simp_all
next
  case (Cons w ws)
  then show ?case by simp
qed

lemma rmatch_LazyStar_step:
  "rmatch r (x # t) os caps = None \<Longrightarrow> in_class c x \<Longrightarrow>
     rmatch (LazyStar c # r) (x # t) os caps = rmatch (LazyStar c # r) t os caps"
  by simp

lemma rmatch_LazyStar_stop:
  "rmatch r s os caps = Some m \<Longrightarrow> rmatch (LazyStar c # r) s os caps = Some m"
  by simp

lemma rmatch_lazy_dot_until:
  assumes "CHR ''<'' \<notin> set xs" and "CHR 0x0A \<notin> set xs"
    and "length (xs @ ''<br'' @ rest) \<le> length b"
  shows "rmatch [LazyStar Dot, Close, Lit ''<br''] (xs @ ''<br'' @ rest) (b # os) caps =
     Some (caps @ [take (length b - length (''<br'' @ rest)) b], rest)"
  using assms
proof (induction xs)
  case Nil
  have "rmatch [Close, Lit ''<br''] (''<br'' @ rest) (b # os) caps =
      Some (caps @ [take (length b - length (''<br'' @ rest)) b], rest)"
    by simp
  from rmatch_LazyStar_stop [OF this] show ?case by simp
next
  case (Cons x xs)
  then have x: "x \<noteq> CHR ''<''" and dot: "in_class Dot x" by auto
  have none: "rmatch [Close, Lit ''<br''] (x # (xs @ ''<br'' @ rest)) (b # os) caps = None"
    using x by simp
  have "rmatch [LazyStar Dot, Close, Lit ''<br''] (xs @ ''<br'' @ rest) (b # os) caps =
     Some (caps @ [take (length b - length (''<br'' @ rest)) b], rest)"
    using Cons by simp
  with rmatch_LazyStar_step [OF none dot] show ?case by (simp only: append_Cons)
qed

text \<open>
  What the unavailability pattern captures when the summary starts with the phrase: the
  text between the whitespace after \<open>for\<close> and the first \<open><br\<close>.
\<close>

lemma unavailable_phrase:
  assumes "list_all isspace ws"
    and "location = [] \<or> \<not> isspace (hd location)"
    and "CHR ''<'' \<notin> set location" and "CHR 0x0A \<notin> set location"
  shows "re_search unavailable_re
           (''Current Air Quality unavailable for'' @ ws @ location @ ''<br'' @ rest) =
         Some [location]"
proof -
  let ?s = "location @ ''<br'' @ rest"
  have "rmatch [LazyStar Dot, Close, Lit ''<br''] ?s [?s] [] =
      Some ([] @ [take (length ?s - length (''<br'' @ rest)) ?s], rest)"
    by (rule rmatch_lazy_dot_until [OF assms(3,4)]) simp
  then have g: "rmatch [Open, LazyStar Dot, Close, Lit ''<br''] ?s [] [] = Some ([location], rest)"
    by simp
  have h: "?s = [] \<or> \<not> in_class Space (hd ?s)"
    using assms(2) by (cases location) (simp_all add: isspace_def)
  have "list_all (in_class Space) ws" using assms(1) by (simp add: list_all_iff)
  from rmatch_Star_run [OF this h g]
  have "rmatch (Star Space # [Open, LazyStar Dot, Close, Lit ''<br'']) (ws @ ?s) [] [] =
      Some ([location], rest)" .
  then have "rmatch unavailable_re
      (''Current Air Quality unavailable for'' @ ws @ ?s) [] [] = Some ([location], rest)"
    unfolding unavailable_re_def by (simp only: rmatch_Lit_append)
  then show ?thesis by simp
qed

subsection \<open>Extraction\<close>

text \<open>
  C9. An entry without a detailed summary is extracted without an exception, and the
  result holds the defaults: the title and the link of the entry (\<open>No title\<close> and
  \<open>No link\<close> when the entry has none), the location \<open>No location\<close>, the agency
  \<open>No agency\<close>, and no report date, reading or last update.
\<close>

theorem extract_without_summary_detail:
  assumes "e_summary_detail entry = None"
  shows "fetch_entry strp entry = Inr
       [(''title'', PStr (case e_title entry of None \<Rightarrow> ''No title'' | Some v \<Rightarrow> v)),
        (''link'', PStr (case e_link entry of None \<Rightarrow> ''No link'' | Some v \<Rightarrow> v)),
        (''location'', PStr ''No location''),
        (''report_date'', PNone),
        (''air_quality_pm25'', PNone),
        (''air_quality_pm10'', PNone),
        (''air_quality_ozone'', PNone),
        (''agency'', PStr ''No agency''),
        (''last_update'', PNone)]"
  using assms by (simp add: fetch_entry_def entry_data_def)

theorem extract_without_summary_detail_witness:
  "e_summary_detail \<lparr>e_title = Some ''Seattle'', e_link = None, e_summary = Some ''Good'',
        e_summary_detail = None\<rparr> = None \<and>
   fetch_entry strptime_example
      \<lparr>e_title = Some ''Seattle'', e_link = None, e_summary = Some ''Good'',
        e_summary_detail = None\<rparr> = Inr
       [(''title'', PStr ''Seattle''),
        (''link'', PStr ''No link''),
        (''location'', PStr ''No location''),
        (''report_date'', PNone),
        (''air_quality_pm25'', PNone),
        (''air_quality_pm10'', PNone),
        (''air_quality_ozone'', PNone),
        (''agency'', PStr ''No agency''),
        (''last_update'', PNone)]"
  using extract_without_summary_detail
    [of "\<lparr>e_title = Some ''Seattle'', e_link = None, e_summary = Some ''Good'',
        e_summary_detail = None\<rparr>" strptime_example]
  by simp

text \<open>
  C5, amended. When the detailed summary matches the unavailability phrase, the match has
  one group, the location is that group as captured, and nothing else is derived: report
  date, readings and last update are absent and the agency is the default. The result
  has the nine keys of every other result; no flag records the unavailability.
\<close>

theorem unavailable_entry:
  assumes "e_summary_detail entry = Some detail"
    and "re_search unavailable_re (case detail of None \<Rightarrow> [] | Some v \<Rightarrow> v) = Some caps"
  shows "\<exists>location. caps = [location] \<and>
     fetch_entry strp entry = Inr
       [(''title'', PStr (case e_title entry of None \<Rightarrow> ''No title'' | Some v \<Rightarrow> v)),
        (''link'', PStr (case e_link entry of None \<Rightarrow> ''No link'' | Some v \<Rightarrow> v)),
        (''location'', PStr location),
        (''report_date'', PNone),
        (''air_quality_pm25'', PNone),
        (''air_quality_pm10'', PNone),
        (''air_quality_ozone'', PNone),
        (''agency'', PStr ''No agency''),
        (''last_update'', PNone)]"
proof -
  from one_group [OF assms(2) count_unavailable_re] obtain g where g: "caps = [g]" ..
  with assms show ?thesis
    by (simp add: fetch_entry_def entry_data_def group1_def Let_def)
qed

lemma search_springfield:
  "re_search unavailable_re ''Current Air Quality unavailable for Springfield<br'' = Some [''Springfield'']"
  by (simp add: unavailable_re_def isspace_def)

theorem unavailable_entry_witness:
  "re_search unavailable_re ''Current Air Quality unavailable for Springfield<br''
     = Some [''Springfield''] \<and>
   fetch_entry strptime_example
      \<lparr>e_title = None, e_link = Some ''http://feeds.example/rss'', e_summary = None,
        e_summary_detail = Some (Some ''Current Air Quality unavailable for Springfield<br'')\<rparr> = Inr
       [(''title'', PStr ''No title''),
        (''link'', PStr ''http://feeds.example/rss''),
        (''location'', PStr ''Springfield''),
        (''report_date'', PNone),
        (''air_quality_pm25'', PNone),
        (''air_quality_pm10'', PNone),
        (''air_quality_ozone'', PNone),
        (''agency'', PStr ''No agency''),
        (''last_update'', PNone)]"
proof -
  let ?entry = "\<lparr>e_title = None, e_link = Some ''http://feeds.example/rss'', e_summary = None,
        e_summary_detail = Some (Some ''Current Air Quality unavailable for Springfield<br'')\<rparr>"
  have a: "e_summary_detail ?entry = Some (Some ''Current Air Quality unavailable for Springfield<br'')"
    by simp
  have b: "re_search unavailable_re
      (case Some ''Current Air Quality unavailable for Springfield<br'' of None \<Rightarrow> [] | Some v \<Rightarrow> v)
      = Some [''Springfield'']"
    using search_springfield by simp
  from unavailable_entry [OF a b, of strptime_example] search_springfield
  show ?thesis by simp
qed

text \<open>
  C5 as stated fails: the result for the summary of the specification's example has no
  key \<open>unavailable\<close>.
\<close>

theorem unavailable_flag_counterexample:
  "fetch_entry strptime_example
      \<lparr>e_title = None, e_link = None, e_summary = None,
        e_summary_detail = Some (Some ''Current Air Quality unavailable for Springfield<br'')\<rparr>
     = Inr (entry_data ''No title'' ''No link'' ''Springfield'' PNone PNone PNone PNone ''No agency'' PNone)
   \<and> getitem (entry_data ''No title'' ''No link'' ''Springfield'' PNone PNone PNone PNone ''No agency'' PNone)
        ''unavailable'' = Inl (KeyError ''unavailable'')"
  by (simp add: fetch_entry_def entry_data_def group1_def Let_def getitem_def
      unavailable_re_def isspace_def)

lemma py_int_digits:
  "a \<noteq> [] \<Longrightarrow> list_all isdigit a \<Longrightarrow> length a \<le> max_str_digits \<Longrightarrow>
     py_int a = Inr (decimal a)"
  by (simp add: py_int_def)

lemma py_int_too_long: "max_str_digits < length a \<Longrightarrow> py_int a = Inl ValueError"
  by (simp add: py_int_def)

lemma re_findall_groups:
  "m \<in> set (re_findall air_quality_re s) \<Longrightarrow>
     \<exists>category aqi description. m = [category, aqi, description] \<and> aqi \<noteq> [] \<and> list_all isdigit aqi"
proof (induction air_quality_re s rule: re_findall.induct)
  case (1 s)
  note simps = re_findall.simps [of air_quality_re s]
  show ?case
  proof (cases "rmatch air_quality_re s [] []")
    case None
    show ?thesis
    proof (cases s)
      case Nil
      with None "1.prems" simps show ?thesis by simp
    next
      case (Cons c cs)
      with None "1.prems" simps have "m \<in> set (re_findall air_quality_re cs)" by simp
      from "1.hyps"(1) [OF None Cons this] show ?thesis .
    qed
  next
    case (Some r)
    then have r: "rmatch air_quality_re s [] [] = Some (fst r, snd r)" by simp
    show ?thesis
    proof (cases "m = fst r")
      case True
      with air_quality_groups [OF r] show ?thesis by simp
    next
      case False
      show ?thesis
      proof (cases "length (snd r) < length s")
        case True
        with Some \<open>m \<noteq> fst r\<close> "1.prems" simps
        have "m \<in> set (re_findall air_quality_re (snd r))" by simp
        from "1.hyps"(2) [OF Some True this] show ?thesis .
      next
        case False
        then obtain c cs where s: "s = c # cs"
          using Some \<open>m \<noteq> fst r\<close> "1.prems" simps by (cases s) auto
        with False Some \<open>m \<noteq> fst r\<close> "1.prems" simps
        have "m \<in> set (re_findall air_quality_re cs)" by simp
        from "1.hyps"(3) [OF Some False s this] show ?thesis .
      qed
    qed
  qed
qed


lemma air_quality_loop_raises:
  assumes "\<And>m. m \<in> set ms \<Longrightarrow>
     \<exists>category aqi description. m = [category, aqi, description] \<and> aqi \<noteq> [] \<and> list_all isdigit aqi"
    and "\<not> digits_converted ms"
  shows "air_quality_loop ms (a, b, c) = Inl ValueError"
  using assms
proof (induction ms arbitrary: a b c)
  case Nil
  then show ?case by (simp add: digits_converted_def)
next
  case (Cons m ms)
  from Cons.prems(1) [of m] obtain category aqi description where
    m: "m = [category, aqi, description]" and aqi: "aqi \<noteq> []" "list_all isdigit aqi"
    by auto
  show ?case
  proof (cases "length aqi \<le> max_str_digits")
    case False
    then have "py_int aqi = Inl ValueError" by (simp add: py_int_too_long)
    then show ?thesis unfolding m by simp
  next
    case True
    with Cons.prems(2) m have "\<not> digits_converted ms" by (simp add: digits_converted_def)
    with Cons.IH Cons.prems(1)
    have rest: "\<And>a b c. air_quality_loop ms (a, b, c) = Inl ValueError" by simp
    show ?thesis
      unfolding m by (simp add: rest py_int_digits [OF aqi True])
  qed
qed


lemma air_quality_digit_limit:
  assumes "\<not> digits_converted (re_findall air_quality_re html)"
  shows "air_quality_loop (re_findall air_quality_re html) (PNone, PNone, PNone) = Inl ValueError"
  by (rule air_quality_loop_raises [OF re_findall_groups assms])

lemma count_location_re: "count_list location_re Close = 1"
  by (simp add: location_re_def)

lemma count_agency_re: "count_list agency_re Close = 1"
  by (simp add: agency_re_def)

lemma text_field_location: "\<exists>v. text_field dflt (re_search location_re html) = Inr v"
proof (cases "re_search location_re html")
  case None
  then show ?thesis by (simp add: text_field_def)
next
  case (Some caps)
  from one_group [OF Some count_location_re] Some show ?thesis
    by (auto simp: text_field_def group1_def)
qed

lemma text_field_agency: "\<exists>v. text_field dflt (re_search agency_re html) = Inr v"
proof (cases "re_search agency_re html")
  case None
  then show ?thesis by (simp add: text_field_def)
next
  case (Some caps)
  from one_group [OF Some count_agency_re] Some show ?thesis
    by (auto simp: text_field_def group1_def)
qed


text \<open>
  With the same summary and timestamps, a matched integer of more than 4300 digits makes
  the extraction raise.
\<close>

lemma long_integer_raises:
  assumes "e_summary_detail entry = Some detail"
    and "html = (case detail of None \<Rightarrow> [] | Some v \<Rightarrow> v)"
    and "re_search unavailable_re html = None"
    and "parse_stamp strp ''%m/%d/%y %I:%M %p'' (re_search date_re html) = Inr report_date"
    and "parse_stamp strp ''%a, %d %b %Y %H:%M:%S'' (re_search last_update_re html) = Inr last_update"
    and "\<not> digits_converted (re_findall air_quality_re html)"
  shows "fetch_entry strp entry = Inl ValueError"
proof -
  from text_field_location obtain location where
    l: "text_field ''No location'' (re_search location_re html) = Inr location" by blast
  from text_field_agency obtain agency where
    a: "text_field ''No agency'' (re_search agency_re html) = Inr agency" by blast
  show ?thesis
    using assms(1,3,4,5) l a air_quality_digit_limit [OF assms(6)]
    unfolding fetch_entry_def Let_def assms(2)
    by (simp del: re_findall.simps)
qed

lemmas eval_defs = fetch_entry_def entry_data_def group1_def Let_def
  location_re_def date_re_def air_quality_re_def agency_re_def last_update_re_def
  unavailable_re_def tz_re_def isspace_def isdigit_def parse_stamp_def text_field_def
  strip_def strptime_example_def py_int_def max_str_digits_def decimal_def digit_val_def
  getitem_def







subsection \<open>Normalisation\<close>

lemma py_split_first: "\<exists>ws. py_split sep s = takeWhile (\<lambda>c. c \<noteq> sep) s # ws"
  by (induction s) auto

lemma location_key_PStr:
  "location_key (PStr s) = Inr (PStr (strip (takeWhile (\<lambda>c. c \<noteq> CHR '','') s)))"
proof -
  from py_split_first [of "CHR '',''" s] obtain ws where
    "py_split (CHR '','') s = takeWhile (\<lambda>c. c \<noteq> CHR '','') s # ws" ..
  then show ?thesis by (simp add: location_key_def)
qed

lemma insert_params_entry_data:
  "insert_params (entry_data title link location report_date pm25 pm10 ozone agency last_update) =
     Inr \<lparr>r_title = PStr title, r_link = PStr link,
          r_location = PStr (strip (takeWhile (\<lambda>c. c \<noteq> CHR '','') location)),
          r_report_date = report_date, r_pm25 = pm25, r_pm10 = pm10, r_ozone = ozone,
          r_agency = PStr agency, r_last_update = last_update\<rparr>"
  by (simp add: insert_params_def entry_data_def getitem_def location_key_PStr)

text \<open>
  C7. The row built from a candidate record has, as its location, the text of the
  record's location before the first comma, stripped of surrounding whitespace, and every
  other field of the record unchanged; without a comma, the location is the whole text,
  stripped.
\<close>

theorem normalize_location_key:
  "insert_params (entry_data title link location report_date pm25 pm10 ozone agency last_update) =
     Inr \<lparr>r_title = PStr title, r_link = PStr link,
          r_location = PStr (strip (takeWhile (\<lambda>c. c \<noteq> CHR '','') location)),
          r_report_date = report_date, r_pm25 = pm25, r_pm10 = pm10, r_ozone = ozone,
          r_agency = PStr agency, r_last_update = last_update\<rparr> \<and>
   (CHR '','' \<notin> set location \<longrightarrow>
      strip (takeWhile (\<lambda>c. c \<noteq> CHR '','') location) = strip location)"
proof (intro conjI impI)
  assume "CHR '','' \<notin> set location"
  then have "takeWhile (\<lambda>c. c \<noteq> CHR '','') location = location"
    by (induction location) auto
  then show "strip (takeWhile (\<lambda>c. c \<noteq> CHR '','') location) = strip location"
    by (rule arg_cong)
qed (rule insert_params_entry_data)

theorem normalize_location_key_witness:
  "insert_params (entry_data ''Air'' ''No link'' ''Springfield, IL'' PNone (PInt 7) PNone PNone
       ''No agency'' PNone) =
     Inr \<lparr>r_title = PStr ''Air'', r_link = PStr ''No link'', r_location = PStr ''Springfield'',
          r_report_date = PNone, r_pm25 = PInt 7, r_pm10 = PNone, r_ozone = PNone,
          r_agency = PStr ''No agency'', r_last_update = PNone\<rparr> \<and>
   CHR '','' \<notin> set '' Tacoma '' \<and>
   insert_params (entry_data ''Air'' ''No link'' '' Tacoma '' PNone (PInt 7) PNone PNone
       ''No agency'' PNone) =
     Inr \<lparr>r_title = PStr ''Air'', r_link = PStr ''No link'', r_location = PStr ''Tacoma'',
          r_report_date = PNone, r_pm25 = PInt 7, r_pm10 = PNone, r_ozone = PNone,
          r_agency = PStr ''No agency'', r_last_update = PNone\<rparr>"
  using normalize_location_key [of "''Air''" "''No link''" "''Springfield, IL''" PNone "PInt 7" PNone PNone
      "''No agency''" PNone]
    normalize_location_key [of "''Air''" "''No link''" "'' Tacoma ''" PNone "PInt 7" PNone PNone
      "''No agency''" PNone]
  by (simp add: strip_def isspace_def)

text \<open>Every result of the extraction is such a candidate record.\<close>

lemma fetch_entry_shape:
  assumes "fetch_entry strp entry = Inr d"
  shows "\<exists>title link location report_date pm25 pm10 ozone agency last_update.
           d = entry_data title link location report_date pm25 pm10 ozone agency last_update"
proof (cases "e_summary_detail entry")
  case None
  with assms have "d = entry_data (case e_title entry of None \<Rightarrow> ''No title'' | Some v \<Rightarrow> v)
       (case e_link entry of None \<Rightarrow> ''No link'' | Some v \<Rightarrow> v) ''No location''
       PNone PNone PNone PNone ''No agency'' PNone"
    unfolding fetch_entry_def Let_def by simp
  then show ?thesis by blast
next
  case (Some detail)
  let ?html = "case detail of None \<Rightarrow> [] | Some v \<Rightarrow> v"
  show ?thesis
  proof (cases "re_search unavailable_re ?html")
    case (Some caps)
    with assms \<open>e_summary_detail entry = Some detail\<close>
    obtain location where "d = entry_data (case e_title entry of None \<Rightarrow> ''No title'' | Some v \<Rightarrow> v)
       (case e_link entry of None \<Rightarrow> ''No link'' | Some v \<Rightarrow> v) location
       PNone PNone PNone PNone ''No agency'' PNone"
      unfolding fetch_entry_def Let_def
      by (cases "group1 caps") auto
    then show ?thesis by blast
  next
    case None
    with assms \<open>e_summary_detail entry = Some detail\<close>
    obtain location report_date pm25 pm10 ozone agency last_update where
      "entry_data (case e_title entry of None \<Rightarrow> ''No title'' | Some v \<Rightarrow> v)
       (case e_link entry of None \<Rightarrow> ''No link'' | Some v \<Rightarrow> v) location
       report_date pm25 pm10 ozone agency last_update = d"
      unfolding fetch_entry_def Let_def
      by (simp del: re_findall.simps re_search.simps split: sum.splits prod.splits)
    then show ?thesis by blast
  qed
qed

subsection \<open>The store\<close>

lemma index_eq_same:
  "a \<noteq> PNone \<or> \<not> nd \<Longrightarrow> index_eq nd a a"
  by (auto simp: index_eq_def)

lemma conflict_same_key:
  assumes "same_key r' r" and "r_location r \<noteq> PNone" and "r_report_date r \<noteq> PNone \<or> \<not> nd"
  shows "conflict nd r r'"
  using assms by (auto simp: conflict_def same_key_def index_eq_def)





lemma execute_in_failed_transaction:
  "aborted w \<Longrightarrow>
     execute_insert cfg r w = (Some (OtherError ''psycopg2.errors.InFailedSqlTransaction''), w)"
  by (simp add: execute_insert_def)















subsection \<open>The orchestrator\<close>

lemma process_urls_append_failure:
  assumes "process_urls cfg before w = (None, w1)"
    and "fetch_rss_feed cfg url = Inl e"
  shows "process_urls cfg (before @ url # after) w = (Some e, logger (Processing_URL url) w1)"
  using assms
proof (induction before arbitrary: w)
  case Nil
  then show ?case by (simp add: Let_def)
next
  case (Cons u us)
  from Cons.prems(1) obtain data where
    d: "fetch_rss_feed cfg u = Inr data"
    and r: "process_urls cfg us (save_to_db cfg data (logger (Processing_URL u) w)) = (None, w1)"
    by (auto simp: Let_def split: sum.splits)
  from Cons.IH [OF r Cons.prems(2)] d show ?case by (simp add: Let_def)
qed

lemma lambda_handler_failure:
  assumes "read_urls_from_csv cfg = Inr (before @ url # after)"
    and "get_db_connection cfg = None"
    and "process_urls cfg before w = (None, w1)"
    and "fetch_rss_feed cfg url = Inl e"
  shows "lambda_handler cfg w =
     (\<lparr>statusCode = 500, body = Error_in_data_collection e\<rparr>,
      logger (Error_occurred e) (logger (Processing_URL url) w1))"
  using assms(1,2) process_urls_append_failure [OF assms(3,4), of after]
  by (simp add: lambda_handler_def failed_def)

text \<open>
  C3, amended. The loop over the URLs has no handler of its own. When fetching or
  processing one URL raises, after the URLs before it went through, the handler logs the
  error once and answers 500; the world is the one the URLs before had left, with the two
  log lines added: nothing of the URLs after the failing one is fetched or stored, and
  what the URLs before had committed stays.
\<close>

theorem source_failure_aborts_run:
  assumes "read_urls_from_csv cfg = Inr (before @ url # after)"
    and "get_db_connection cfg = None"
    and "process_urls cfg before w = (None, w1)"
    and "fetch_rss_feed cfg url = Inl e"
  shows "lambda_handler cfg w =
     (\<lparr>statusCode = 500, body = Error_in_data_collection e\<rparr>,
      w1\<lparr>logged := logged w1 @ [Processing_URL url, Error_occurred e]\<rparr>)"
  using lambda_handler_failure [OF assms] by (simp add: logger_def)

lemmas handler_defs = lambda_handler_def failed_def fetch_rss_feed_def feed_example_def
  env_example_def world_empty_def Let_def logger_def rollback_def

lemma tacoma_raises:
  "fetch_rss_feed env_example ''https://feeds.example/tacoma'' = Inl ValueError"
  by (simp add: handler_defs eval_defs)

lemma seattle_data:
  "fetch_rss_feed env_example ''https://feeds.example/seattle'' =
     Inr [entry_data ''Seattle'' ''No link'' ''Seattle, WA''
            (PDate \<lparr>year = 2024, month = 7, day = 4, hour = 10, minute = 0, second = 0\<rparr>)
            PNone PNone (PInt 30) ''No agency'' PNone]"
  by (simp add: handler_defs eval_defs)

theorem source_failure_aborts_run_witness:
  "read_urls_from_csv env_example = Inr ([] @ ''https://feeds.example/tacoma'' # [''https://feeds.example/seattle'']) \<and>
   get_db_connection env_example = None \<and>
   process_urls env_example [] world_empty = (None, world_empty) \<and>
   fetch_rss_feed env_example ''https://feeds.example/tacoma'' = Inl ValueError \<and>
   lambda_handler env_example world_empty =
     (\<lparr>statusCode = 500, body = Error_in_data_collection ValueError\<rparr>,
      \<lparr>committed = [], pending = [], aborted = False,
       logged = [Processing_URL ''https://feeds.example/tacoma'', Error_occurred ValueError]\<rparr>)"
proof -
  have a: "read_urls_from_csv env_example =
      Inr ([] @ ''https://feeds.example/tacoma'' # [''https://feeds.example/seattle''])"
    by (simp add: env_example_def)
  have b: "get_db_connection env_example = None" by (simp add: env_example_def)
  have c: "process_urls env_example [] world_empty = (None, world_empty)" by simp
  from source_failure_aborts_run [OF a b c tacoma_raises] a b c tacoma_raises
  show ?thesis by (simp add: world_empty_def)
qed

text \<open>
  C3 as stated fails: Tacoma's feed raises, Seattle's feed would give one record, and the
  run ends with status 500 and an empty store.
\<close>

theorem source_failure_counterexample:
  "read_urls_from_csv env_example =
     Inr [''https://feeds.example/tacoma'', ''https://feeds.example/seattle''] \<and>
   fetch_rss_feed env_example ''https://feeds.example/seattle'' =
     Inr [entry_data ''Seattle'' ''No link'' ''Seattle, WA''
            (PDate \<lparr>year = 2024, month = 7, day = 4, hour = 10, minute = 0, second = 0\<rparr>)
            PNone PNone (PInt 30) ''No agency'' PNone] \<and>
   lambda_handler env_example world_empty =
     (\<lparr>statusCode = 500, body = Error_in_data_collection ValueError\<rparr>,
      \<lparr>committed = [], pending = [], aborted = False,
       logged = [Processing_URL ''https://feeds.example/tacoma'', Error_occurred ValueError]\<rparr>)"
  using seattle_data tacoma_raises
  by (simp add: lambda_handler_def failed_def env_example_def world_empty_def Let_def logger_def)

lemma count_date_re: "count_list date_re Close = 1"
  by (simp add: date_re_def)








subsection \<open>The trend\<close>

text \<open>The integer logarithm, the powers of two and the rounding, as far as the guard needs them.\<close>

lemma ilog2_nonneg: "0 \<le> ilog2 n"
proof (induction n rule: ilog2.induct)
  case (1 n)
  then show ?case by (subst ilog2.simps) auto
qed

lemma ilog2_le: "1 \<le> n \<Longrightarrow> 2 ^ nat (ilog2 n) \<le> n"
proof (induction n rule: ilog2.induct)
  case (1 n)
  show ?case
  proof (cases "n < 2")
    case True
    with "1.prems" show ?thesis by (subst ilog2.simps) simp
  next
    case False
    then have "1 \<le> n div 2" by simp
    from "1.IH" [OF False this] have "2 ^ nat (ilog2 (n div 2)) \<le> n div 2" .
    then have "2 * 2 ^ nat (ilog2 (n div 2)) \<le> n" by simp
    moreover have "nat (1 + ilog2 (n div 2)) = Suc (nat (ilog2 (n div 2)))"
      using ilog2_nonneg [of "n div 2"] by simp
    ultimately show ?thesis using False by (subst ilog2.simps) simp
  qed
qed

lemma pow2_powi: "pow2 e = 2 powi e"
  by (simp add: pow2_def power_int_def field_simps)

lemma pow2_pos: "0 < pow2 e"
  by (simp add: pow2_powi)

lemma pow2_mono: "a \<le> b \<Longrightarrow> pow2 a \<le> pow2 b"
  by (simp add: pow2_powi power_int_increasing)

lemma round_half_even_ge: "1 \<le> y \<Longrightarrow> 1 \<le> round_half_even y"
proof -
  assume "1 \<le> y"
  then have "1 \<le> \<lfloor>y\<rfloor>" by simp
  then show ?thesis by (simp add: round_half_even_def Let_def)
qed

text \<open>Converting an integer other than 0 never gives the float 0.\<close>

lemma float_of_int_nonzero:
  assumes "n \<noteq> 0"
  shows "float_of (of_int n) \<noteq> 0"
proof -
  let ?x = "of_int n :: rat"
  let ?L = "ilog2 \<bar>n\<bar>"
  let ?e = "max (floor_log2 \<bar>?x\<bar>) (- 1022)"
  let ?u = "pow2 (?e - 52)"
  have n1: "1 \<le> \<bar>n\<bar>" using assms by simp
  have q: "quotient_of \<bar>?x\<bar> = (\<bar>n\<bar>, 1)"
    using quotient_of_rat_of_int [of "\<bar>n\<bar>"] by simp
  have one: "ilog2 1 = 0" by (subst ilog2.simps) simp
  have "floor_log2 \<bar>?x\<bar> \<le> ?L"
    by (simp add: floor_log2_def q one Let_def)
  then have "?e \<le> ?L" using ilog2_nonneg [of "\<bar>n\<bar>"] by simp
  then have "?e - 52 \<le> ?L" by linarith
  then have "?u \<le> pow2 ?L" by (rule pow2_mono)
  also have "pow2 ?L = of_int (2 ^ nat ?L)"
    using ilog2_nonneg [of "\<bar>n\<bar>"] by (simp add: pow2_def)
  also have "\<dots> \<le> of_int \<bar>n\<bar>"
    using ilog2_le [OF n1] by (simp only: of_int_le_iff)
  finally have u: "?u \<le> \<bar>?x\<bar>" by simp
  have upos: "0 < ?u" by (rule pow2_pos)
  from u upos have "1 \<le> \<bar>?x\<bar> / ?u" by (simp add: field_simps)
  then have "1 \<le> round_half_even (\<bar>?x\<bar> / ?u)" by (rule round_half_even_ge)
  then have "0 < (of_int (round_half_even (\<bar>?x\<bar> / ?u)) :: rat)" by simp
  with upos have r: "0 < of_int (round_half_even (\<bar>?x\<bar> / ?u)) * ?u" by simp
  have m: "min (of_int (round_half_even (\<bar>?x\<bar> / ?u)) * ?u) (pow2 1024) \<noteq> 0"
    using r pow2_pos [of 1024] by (auto simp: min_def)
  have s: "sgn ?x \<noteq> 0" using assms by (simp add: sgn_if)
  have "float_of ?x = sgn ?x * min (of_int (round_half_even (\<bar>?x\<bar> / ?u)) * ?u) (pow2 1024)"
    using assms by (simp add: float_of_def Let_def)
  with m s show ?thesis by (simp only: mult_eq_0_iff) simp
qed

lemma to_float_error: "to_float v = Inl e \<Longrightarrow> e \<noteq> ZeroDivisionError"
  by (cases v) (auto simp: to_float_def split: if_splits)

lemma to_float_truthy: "truthy v \<Longrightarrow> to_float v = Inr y \<Longrightarrow> y \<noteq> 0"
  by (cases v) (auto simp: to_float_def truthy_def float_of_int_nonzero split: if_splits)

lemma py_sub_error: "py_sub a b = Inl e \<Longrightarrow> e \<noteq> ZeroDivisionError"
  by (cases a; cases b)
     (auto simp: py_sub_def is_number_def dest: to_float_error split: sum.splits if_splits)

lemma py_mul_error: "py_mul a b = Inl e \<Longrightarrow> e \<noteq> ZeroDivisionError"
  by (cases a; cases b)
     (auto simp: py_mul_def is_number_def dest: to_float_error split: sum.splits if_splits)

lemma py_round2_error: "py_round2 v = Inl e \<Longrightarrow> e \<noteq> ZeroDivisionError"
  by (cases v) (auto simp: py_round2_def)

lemma py_truediv_floats:
  "is_number a \<Longrightarrow> is_number b \<Longrightarrow> \<not> (\<exists>m n. a = PInt m \<and> b = PInt n) \<Longrightarrow>
     py_truediv a b =
       (case to_float a of Inl e \<Rightarrow> Inl e | Inr x \<Rightarrow>
       (case to_float b of Inl e \<Rightarrow> Inl e | Inr y \<Rightarrow>
       (case truediv x y of Inl e \<Rightarrow> Inl e | Inr q \<Rightarrow>
          Inr (PFloat (float_of q)))))"
  by (cases a; cases b; hypsubst; simp add: py_truediv_def is_number_def)

lemma py_truediv_error:
  assumes "truthy b" and "py_truediv a b = Inl e"
  shows "e \<noteq> ZeroDivisionError"
proof (cases "is_number a \<and> is_number b")
  case False
  with assms(2) show ?thesis by (auto simp: py_truediv_def)
next
  case True
  show ?thesis
  proof (cases "\<exists>m n. a = PInt m \<and> b = PInt n")
    case True
    then obtain m n where ab: "a = PInt m" "b = PInt n" by blast
    with assms(1) have "n \<noteq> 0" by (simp add: truthy_def)
    with assms(2) ab show ?thesis
      by (auto simp: py_truediv_def is_number_def truediv_def split: if_splits)
  next
    case False
    with True assms(2) have *: "(case to_float a of Inl e \<Rightarrow> Inl e | Inr x \<Rightarrow>
                (case to_float b of Inl e \<Rightarrow> Inl e | Inr y \<Rightarrow>
                (case truediv x y of Inl e \<Rightarrow> Inl e | Inr q \<Rightarrow>
                   Inr (PFloat (float_of q))))) = Inl e"
      by (simp add: py_truediv_floats)
    show ?thesis
    proof (cases "to_float a")
      case (Inl x)
      with * to_float_error [OF Inl] show ?thesis by simp
    next
      case x: (Inr x)
      show ?thesis
      proof (cases "to_float b")
        case (Inl y)
        with * x to_float_error [OF Inl] show ?thesis by simp
      next
        case (Inr y)
        from to_float_truthy [OF assms(1) Inr] have "y \<noteq> 0" .
        with * x Inr show ?thesis by (simp add: truediv_def)
      qed
    qed
  qed
qed

lemma calculate_change_no_zero_division:
  "calculate_change start_v end_v \<noteq> Inl ZeroDivisionError"
proof (cases "truthy start_v \<and> truthy end_v")
  case False
  then show ?thesis by (auto simp: calculate_change_def)
next
  case True
  show ?thesis
  proof
    assume z: "calculate_change start_v end_v = Inl ZeroDivisionError"
    show False
    proof (cases "py_sub end_v start_v")
      case (Inl e)
      with z True py_sub_error [OF Inl] show False by (simp add: calculate_change_def)
    next
      case d: (Inr d)
      show False
      proof (cases "py_truediv d start_v")
        case (Inl e)
        with z True d py_truediv_error [OF _ Inl] show False
          by (simp add: calculate_change_def)
      next
        case q: (Inr q)
        show False
        proof (cases "py_mul q (PInt 100)")
          case (Inl e)
          with z True d q py_mul_error [OF Inl] show False
            by (simp add: calculate_change_def)
        next
          case (Inr p)
          with z True d q have "py_round2 p = Inl ZeroDivisionError"
            by (simp add: calculate_change_def)
          from py_round2_error [OF this] show False by simp
        qed
      qed
    qed
  qed
qed

lemma trend_direction_append_None:
  "trend_direction (before @ (k, PNone) # after) = trend_direction (before @ after)"
  by (simp add: trend_direction_def isinstance_float_def)

text \<open>
  C10. The percent change never divides by zero: for all start and end values the
  result is not \<^verbatim>\<open>ZeroDivisionError\<close>, and when the start is 0 or either value is absent the
  change is \<^verbatim>\<open>None\<close>. A start of 0 gives what an absent start gives, and a change of
  \<^verbatim>\<open>None\<close> does not count in the direction.
\<close>

theorem calculate_change_guard:
  "calculate_change start_v end_v \<noteq> Inl ZeroDivisionError \<and>
   (start_v = PNone \<or> end_v = PNone \<or> start_v = PInt 0 \<longrightarrow>
      calculate_change start_v end_v = Inr PNone) \<and>
   calculate_change (PInt 0) end_v = calculate_change PNone end_v \<and>
   trend_direction (before @ (k, PNone) # after) = trend_direction (before @ after)"
proof (intro conjI impI)
  show "calculate_change start_v end_v \<noteq> Inl ZeroDivisionError"
    by (rule calculate_change_no_zero_division)
  show "calculate_change start_v end_v = Inr PNone"
    if "start_v = PNone \<or> end_v = PNone \<or> start_v = PInt 0"
    using that by (auto simp: calculate_change_def truthy_def)
  show "calculate_change (PInt 0) end_v = calculate_change PNone end_v"
    by (simp add: calculate_change_def truthy_def)
  show "trend_direction (before @ (k, PNone) # after) = trend_direction (before @ after)"
    by (rule trend_direction_append_None)
qed

theorem calculate_change_guard_witness:
  "calculate_change (PInt 0) (PInt 50) = Inr PNone \<and>
   trend_direction
     ([(''location'', PStr ''Seattle''), (''timeframe'', PStr ''week'')] @
      (''pm25_change'', PNone) # [(''pm10_change'', PFloat (-10)), (''ozone_change'', PFloat (-5))])
     = ''improving''"
proof -
  have "trend_direction ([(''location'', PStr ''Seattle''), (''timeframe'', PStr ''week'')] @
      [(''pm10_change'', PFloat (-10)), (''ozone_change'', PFloat (-5))]) = ''improving''"
    by (simp add: trend_direction_def isinstance_float_def negative_def)
  with calculate_change_guard [of "PInt 0" "PInt 50"
      "[(''location'', PStr ''Seattle''), (''timeframe'', PStr ''week'')]" "''pm25_change''"
      "[(''pm10_change'', PFloat (-10)), (''ozone_change'', PFloat (-5))]"]
  show ?thesis by simp
qed

text \<open>
  The direction in terms of the changes that are present: improving when all of them are
  negative, which includes the case of no change at all; worsening when that fails and
  all of them are positive; mixed otherwise.
\<close>

lemma changes_present:
  "list_all (\<lambda>change. change \<noteq> PNone \<and> negative change) (filter isinstance_float vs) =
     list_all (\<lambda>x. x < 0) (present vs)"
  "list_all (\<lambda>change. change \<noteq> PNone \<and> positive change) (filter isinstance_float vs) =
     list_all (\<lambda>x. 0 < x) (present vs)"
  by (induction vs)
     (auto simp: present_def List.map_filter_simps isinstance_float_def negative_def positive_def
       split: pyval.splits)

lemma trend_direction_present:
  "trend_direction
     [(''location'', PStr location), (''timeframe'', PStr timeframe),
      (''pm25_change'', c25), (''pm10_change'', c10), (''ozone_change'', co)] =
   (if list_all (\<lambda>x. x < 0) (present [c25, c10, co]) then ''improving''
    else if list_all (\<lambda>x. 0 < x) (present [c25, c10, co]) then ''worsening''
    else ''mixed'')"
proof -
  have "filter isinstance_float (map snd
     [(''location'', PStr location), (''timeframe'', PStr timeframe),
      (''pm25_change'', c25), (''pm10_change'', c10), (''ozone_change'', co)]) =
     filter isinstance_float [c25, c10, co]"
    by (simp add: isinstance_float_def)
  then show ?thesis
    unfolding trend_direction_def Let_def by (simp only: changes_present)
qed

text \<open>
  C8 on a row whose six values are all absent: no change is present, and the direction
  computed is \<open>improving\<close>, not \<open>mixed\<close>.
\<close>

theorem trend_without_changes_is_improving:
  "trend_data_of ''Seattle'' ''week''
     \<lparr>start_pm25 = PNone, end_pm25 = PNone, start_pm10 = PNone, end_pm10 = PNone,
      start_ozone = PNone, end_ozone = PNone\<rparr> =
   Inr [(''location'', PStr ''Seattle''), (''timeframe'', PStr ''week''),
        (''pm25_change'', PNone), (''pm10_change'', PNone), (''ozone_change'', PNone),
        (''trend_direction'', PStr ''improving'')]"
  by (simp add: trend_data_of_def calculate_change_def truthy_def trend_direction_def
      isinstance_float_def)

text \<open>
  The example of the specification, and the same rise starting from 0.
\<close>

lemma trend_rising_is_worsening:
  "trend_data_of ''Seattle'' ''week''
     \<lparr>start_pm25 = PInt 40, end_pm25 = PInt 50, start_pm10 = PInt 20, end_pm10 = PInt 30,
      start_ozone = PNone, end_ozone = PNone\<rparr> =
   Inr [(''location'', PStr ''Seattle''), (''timeframe'', PStr ''week''),
        (''pm25_change'', PFloat 25), (''pm10_change'', PFloat 50), (''ozone_change'', PNone),
        (''trend_direction'', PStr ''worsening'')]"
  by code_simp

lemma trend_rising_from_zero_is_improving:
  "trend_data_of ''Seattle'' ''week''
     \<lparr>start_pm25 = PInt 0, end_pm25 = PInt 50, start_pm10 = PInt 0, end_pm10 = PInt 30,
      start_ozone = PNone, end_ozone = PNone\<rparr> =
   Inr [(''location'', PStr ''Seattle''), (''timeframe'', PStr ''week''),
        (''pm25_change'', PNone), (''pm10_change'', PNone), (''ozone_change'', PNone),
        (''trend_direction'', PStr ''improving'')]"
  by (simp add: trend_data_of_def calculate_change_def truthy_def trend_direction_def
      isinstance_float_def)

text \<open>
  Two changes where the float differs from the exact quotient: 160 to 183 is 14.375
  exactly, computed just below it and rounded to 14.37; 20000 to 19999 is -0.005 exactly,
  computed just below it and rounded to -0.01, which is negative.
\<close>

lemma change_160_183:
  "calculate_change (PInt 160) (PInt 183) = Inr (PFloat (float_of (1437 / 100)))"
  by code_simp

lemma change_20000_19999:
  "calculate_change (PInt 20000) (PInt 19999) = Inr (PFloat (float_of (- 1 / 100))) \<and>
   negative (PFloat (float_of (- 1 / 100)))"
  by code_simp

end
